theory Spec2Isabelle
  imports Complex_Main "HOL-Library.Product_Lexorder"
begin

section \<open>Characters and character classes\<close>

text \<open>
  A line of text is a \<^typ>\<open>string\<close>; a character is read as the code point of the same
  number (U+0000 to U+00FF). The classes below are the extents that \<^verbatim>\<open>\s\<close>,
  \<^verbatim>\<open>\d\<close> and \<^verbatim>\<open>\w\<close> of Python's \<^verbatim>\<open>re\<close> module (on \<^verbatim>\<open>str\<close> patterns) have
  on these code points; \<^verbatim>\<open>str.strip()\<close> uses the same whitespace.
\<close>

definition code :: "char \<Rightarrow> nat" where
  "code c = of_char c"

definition is_space :: "char \<Rightarrow> bool" where
  "is_space c = (let n = code c in
     (9 \<le> n \<and> n \<le> 13) \<or> (28 \<le> n \<and> n \<le> 32) \<or> n = 133 \<or> n = 160)"

definition is_digit :: "char \<Rightarrow> bool" where
  "is_digit c = (let n = code c in 48 \<le> n \<and> n \<le> 57)"

definition is_word :: "char \<Rightarrow> bool" where
  "is_word c = (let n = code c in
     (48 \<le> n \<and> n \<le> 57) \<or> (65 \<le> n \<and> n \<le> 90) \<or> n = 95 \<or> (97 \<le> n \<and> n \<le> 122) \<or>
     n = 170 \<or> n = 178 \<or> n = 179 \<or> n = 181 \<or> n = 185 \<or> n = 186 \<or>
     (188 \<le> n \<and> n \<le> 190) \<or> (192 \<le> n \<and> n \<le> 214) \<or> (216 \<le> n \<and> n \<le> 246) \<or>
     (248 \<le> n \<and> n \<le> 255))"

text \<open>\<^verbatim>\<open>\S\<close>, \<^verbatim>\<open>[\w:/]\<close>, \<^verbatim>\<open>[+\-]\<close> and \<^verbatim>\<open>[^"]\<close>.\<close>

definition non_space :: "char \<Rightarrow> bool" where
  "non_space c = (\<not> is_space c)"

definition word_colon_slash :: "char \<Rightarrow> bool" where
  "word_colon_slash c = (is_word c \<or> c = CHR '':'' \<or> c = CHR ''/'')"

definition plus_minus :: "char \<Rightarrow> bool" where
  "plus_minus c = (c = CHR ''+'' \<or> c = CHR ''-'')"

definition non_quote :: "char \<Rightarrow> bool" where
  "non_quote c = (c \<noteq> CHR 0x22)"

definition in_range :: "char \<Rightarrow> char \<Rightarrow> char \<Rightarrow> bool" where
  "in_range lo hi c = (code lo \<le> code c \<and> code c \<le> code hi)"

text \<open>A letter of a pattern compiled with \<^verbatim>\<open>IGNORECASE\<close>: \<open>l\<close> is a lower-case
  ASCII letter, matched by itself and by its capital.\<close>

definition ascii_lower :: "char \<Rightarrow> char" where
  "ascii_lower c = (if 65 \<le> code c \<and> code c \<le> 90 then char_of (code c + 32) else c)"

definition letter_i :: "char \<Rightarrow> char \<Rightarrow> bool" where
  "letter_i l c = (ascii_lower c = l)"

section \<open>Regular expressions with backtracking\<close>

text \<open>
  The fragment of Python's regular expressions that the program and \<^verbatim>\<open>strptime\<close> use:
  literals, character classes, greedy repetition of a class (\<^verbatim>\<open>+\<close>, \<^verbatim>\<open>*\<close>,
  \<^verbatim>\<open>{n}\<close>, \<^verbatim>\<open>{m,n}\<close>), sequence, alternation, and numbered capture groups.
\<close>

datatype rx =
    Eps
  | Lit char
  | Cls "char \<Rightarrow> bool"
  | Rep "char \<Rightarrow> bool" nat "nat option"
  | Seq rx rx
  | Alt rx rx
  | Grp nat rx

type_synonym caps = "nat \<Rightarrow> string option"

text \<open>
  \<open>rx_match r s g\<close> lists every way \<open>r\<close> matches a prefix of \<open>s\<close>, as (matched text,
  remaining text, captures), in the order in which the backtracking matcher tries them:
  a greedy repetition tries the longest run first, an alternation its left branch first.
\<close>

fun rx_match :: "rx \<Rightarrow> string \<Rightarrow> caps \<Rightarrow> (string \<times> string \<times> caps) list" where
  "rx_match Eps s g = [([], s, g)]"
| "rx_match (Lit c) s g =
     (case s of [] \<Rightarrow> [] | x # xs \<Rightarrow> if x = c then [([x], xs, g)] else [])"
| "rx_match (Cls P) s g =
     (case s of [] \<Rightarrow> [] | x # xs \<Rightarrow> if P x then [([x], xs, g)] else [])"
| "rx_match (Rep P lo hi) s g =
     (let n = length (takeWhile P s);
          m = (case hi of None \<Rightarrow> n | Some h \<Rightarrow> min h n)
      in map (\<lambda>k. (take k s, drop k s, g)) (rev [lo..<Suc m]))"
| "rx_match (Seq a b) s g =
     concat (map (\<lambda>(x, r, g'). map (\<lambda>(y, r', g''). (x @ y, r', g'')) (rx_match b r g'))
                 (rx_match a s g))"
| "rx_match (Alt a b) s g = rx_match a s g @ rx_match b s g"
| "rx_match (Grp i a) s g = map (\<lambda>(x, r, g'). (x, r, g'(i \<mapsto> x))) (rx_match a s g)"

definition seq :: "rx list \<Rightarrow> rx" where
  "seq rs = foldr Seq rs Eps"

fun alts :: "rx list \<Rightarrow> rx" where
  "alts [] = Cls (\<lambda>c. False)"
| "alts [r] = r"
| "alts (r # rs) = Alt r (alts rs)"

text \<open>
  \<^verbatim>\<open>re.match(r, s)\<close>: the first way of matching from the start of \<open>s\<close>, or
  \<^verbatim>\<open>None\<close>. The result holds the matched text and the groups; \<open>groups n g\<close> is
  \<^verbatim>\<open>match.groups()\<close> for a pattern of \<open>n\<close> groups.
\<close>

definition re_match :: "rx \<Rightarrow> string \<Rightarrow> (string \<times> caps) option" where
  "re_match r s =
     (case rx_match r s (\<lambda>i. None) of [] \<Rightarrow> None | (x, rest, g) # other \<Rightarrow> Some (x, g))"

definition groups :: "nat \<Rightarrow> caps \<Rightarrow> string option list" where
  "groups n g = map g [1..<Suc n]"

section \<open>Errors and integers\<close>

datatype error = ValueError

definition and_then :: "error + 'a \<Rightarrow> ('a \<Rightarrow> error + 'b) \<Rightarrow> error + 'b" where
  "and_then m f = (case m of Inl e \<Rightarrow> Inl e | Inr x \<Rightarrow> f x)"

text \<open>\<^verbatim>\<open>str.strip()\<close>.\<close>

definition strip :: "string \<Rightarrow> string" where
  "strip s = rev (dropWhile is_space (rev (dropWhile is_space s)))"

text \<open>
  \<^verbatim>\<open>int(s)\<close> on the strings that the groups of the two patterns capture: decimal digits,
  with white space around them allowed. Any other text is reported as \<^verbatim>\<open>ValueError\<close>
  (signs and underscores, which \<^verbatim>\<open>int\<close> also reads, are never captured). Python's integers
  are unbounded; the interpreter's limit on the number of digits is not modelled.
\<close>

definition digit_val :: "char \<Rightarrow> int" where
  "digit_val c = int (code c) - 48"

definition int_of_str :: "string \<Rightarrow> error + int" where
  "int_of_str s =
     (let t = strip s in
      if t \<noteq> [] \<and> list_all is_digit t
      then Inr (foldl (\<lambda>a c. 10 * a + digit_val c) 0 t)
      else Inl ValueError)"

section \<open>Dates and times\<close>

text \<open>
  A \<^verbatim>\<open>datetime\<close> object: its fields, and the offset of its \<^verbatim>\<open>tzinfo\<close> in microseconds
  (\<open>None\<close> for a naive value).
\<close>

record datetime =
  year :: int
  month :: int
  day :: int
  hour :: int
  minute :: int
  second :: int
  microsecond :: int
  utcoffset :: "int option"

definition is_leap :: "int \<Rightarrow> bool" where
  "is_leap y = (y mod 4 = 0 \<and> (y mod 100 \<noteq> 0 \<or> y mod 400 = 0))"

definition days_in_month :: "int \<Rightarrow> int \<Rightarrow> int" where
  "days_in_month y m =
     (if m = 2 then (if is_leap y then 29 else 28)
      else if m = 4 \<or> m = 6 \<or> m = 9 \<or> m = 11 then 30 else 31)"

text \<open>The checks of the constructors \<^verbatim>\<open>date(y, m, d)\<close>, \<^verbatim>\<open>datetime(...)\<close> and
  \<^verbatim>\<open>timezone(offset)\<close>.\<close>

definition valid_date :: "int \<Rightarrow> int \<Rightarrow> int \<Rightarrow> bool" where
  "valid_date y m d = (1 \<le> y \<and> y \<le> 9999 \<and> 1 \<le> m \<and> m \<le> 12 \<and> 1 \<le> d \<and> d \<le> days_in_month y m)"

definition valid_time :: "int \<Rightarrow> int \<Rightarrow> int \<Rightarrow> int \<Rightarrow> bool" where
  "valid_time h mi s us =
     (0 \<le> h \<and> h \<le> 23 \<and> 0 \<le> mi \<and> mi \<le> 59 \<and> 0 \<le> s \<and> s \<le> 59 \<and> 0 \<le> us \<and> us \<le> 999999)"

definition valid_offset :: "int \<Rightarrow> bool" where
  "valid_offset off = (- 86400000000 < off \<and> off < 86400000000)"

definition a_month :: "string list" where
  "a_month = [[], ''jan'', ''feb'', ''mar'', ''apr'', ''may'', ''jun'',
              ''jul'', ''aug'', ''sep'', ''oct'', ''nov'', ''dec'']"

text \<open>\<^verbatim>\<open>list.index\<close>.\<close>

fun index_of :: "'a list \<Rightarrow> 'a \<Rightarrow> error + int" where
  "index_of [] y = Inl ValueError"
| "index_of (x # xs) y =
     (if x = y then Inr 0 else and_then (index_of xs y) (\<lambda>i. Inr (i + 1)))"

subsection \<open>\<^verbatim>\<open>datetime.strptime(s, '%d/%b/%Y:%H:%M:%S %z')\<close>\<close>

text \<open>
  The library compiles the format to the regular expression
  \<^verbatim>\<open>(?P<d>3[0-1]|[1-2]\d|0[1-9]|[1-9]| [1-9])/(?P<b>jan|feb|mar|apr|may|jun|jul|aug|sep|oct|nov|dec)/\<close>
  \<^verbatim>\<open>(?P<Y>\d\d\d\d):(?P<H>2[0-3]|[0-1]\d|\d):(?P<M>[0-5]\d|\d):(?P<S>6[0-1]|[0-5]\d|\d)\s+\<close>
  \<^verbatim>\<open>(?P<z>[+-]\d\d:?[0-5]\d(:?[0-5]\d(\.\d{1,6})?)?|(?-i:Z))\<close>
  with \<^verbatim>\<open>IGNORECASE\<close> (month names of the C locale), matches it at the start of the
  text, requires the match to cover the whole text, converts the groups, and builds the
  value through the checking constructors. Every failure is a \<^verbatim>\<open>ValueError\<close>.
  The groups \<open>d b Y H M S z\<close> are numbered 1 to 7, the two inner groups of \<open>z\<close> 8 and 9.
\<close>

definition digit :: rx where
  "digit = Cls is_digit"

definition opt :: "rx \<Rightarrow> rx" where
  "opt r = Alt r Eps"

definition word_i :: "string \<Rightarrow> rx" where
  "word_i w = seq (map (\<lambda>l. Cls (letter_i l)) w)"

definition time_re :: rx where
  "time_re = seq
     [Grp 1 (alts [seq [Lit CHR ''3'', Cls (in_range CHR ''0'' CHR ''1'')],
                   seq [Cls (in_range CHR ''1'' CHR ''2''), digit],
                   seq [Lit CHR ''0'', Cls (in_range CHR ''1'' CHR ''9'')],
                   Cls (in_range CHR ''1'' CHR ''9''),
                   seq [Lit CHR '' '', Cls (in_range CHR ''1'' CHR ''9'')]]),
      Lit CHR ''/'',
      Grp 2 (alts (map word_i (tl a_month))),
      Lit CHR ''/'',
      Grp 3 (seq [digit, digit, digit, digit]),
      Lit CHR '':'',
      Grp 4 (alts [seq [Lit CHR ''2'', Cls (in_range CHR ''0'' CHR ''3'')],
                   seq [Cls (in_range CHR ''0'' CHR ''1''), digit],
                   digit]),
      Lit CHR '':'',
      Grp 5 (alts [seq [Cls (in_range CHR ''0'' CHR ''5''), digit], digit]),
      Lit CHR '':'',
      Grp 6 (alts [seq [Lit CHR ''6'', Cls (in_range CHR ''0'' CHR ''1'')],
                   seq [Cls (in_range CHR ''0'' CHR ''5''), digit],
                   digit]),
      Rep is_space 1 None,
      Grp 7 (alts [seq [Cls plus_minus, digit, digit, opt (Lit CHR '':''),
                        Cls (in_range CHR ''0'' CHR ''5''), digit,
                        opt (Grp 8 (seq [opt (Lit CHR '':''),
                                         Cls (in_range CHR ''0'' CHR ''5''), digit,
                                         opt (Grp 9 (seq [Lit CHR ''.'', Rep is_digit 1 (Some 6)]))]))],
                   Lit CHR ''Z''])]"

text \<open>The conversion of the group \<open>z\<close> to an offset in microseconds; \<open>slice a b z\<close> is
  \<^verbatim>\<open>z[a:b]\<close>.\<close>

definition slice :: "nat \<Rightarrow> nat \<Rightarrow> string \<Rightarrow> string" where
  "slice a b z = take (b - a) (drop a z)"

definition gmtoff_digits :: "string \<Rightarrow> error + int" where
  "gmtoff_digits z =
     and_then (int_of_str (slice 1 3 z)) (\<lambda>hours.
     and_then (int_of_str (slice 3 5 z)) (\<lambda>minutes.
     and_then (if slice 5 7 z = [] then Inr 0 else int_of_str (slice 5 7 z)) (\<lambda>seconds.
     and_then (int_of_str (drop 8 z @ replicate (6 - length (drop 8 z)) CHR ''0'')) (\<lambda>fraction.
       let off = (hours * 60 * 60 + minutes * 60 + seconds) * 1000000 + fraction
       in Inr (if take 1 z = ''-'' then - off else off)))))"

definition gmtoff :: "string \<Rightarrow> error + int" where
  "gmtoff z =
     (if z = ''Z'' then Inr 0
      else if slice 3 4 z = '':'' then
        (let z1 = take 3 z @ drop 4 z in
         if length z1 > 5 then
           (if slice 5 6 z1 \<noteq> '':'' then Inl ValueError
            else gmtoff_digits (take 5 z1 @ drop 6 z1))
         else gmtoff_digits z1)
      else gmtoff_digits z)"

definition strptime :: "string \<Rightarrow> error + datetime" where
  "strptime data_string =
     (case re_match time_re data_string of
        None \<Rightarrow> Inl ValueError
      | Some (found, g) \<Rightarrow>
          if length data_string \<noteq> length found then Inl ValueError
          else (case groups 7 g of
             [Some d, Some b, Some Y, Some H, Some M, Some S, Some z] \<Rightarrow>
               and_then (int_of_str d) (\<lambda>day.
               and_then (index_of a_month (map ascii_lower b)) (\<lambda>month.
               and_then (int_of_str Y) (\<lambda>year.
               and_then (int_of_str H) (\<lambda>hour.
               and_then (int_of_str M) (\<lambda>minute.
               and_then (int_of_str S) (\<lambda>second.
               and_then (gmtoff z) (\<lambda>off.
                 if valid_date year month day \<and> valid_time hour minute second 0 \<and> valid_offset off
                 then Inr \<lparr>year = year, month = month, day = day, hour = hour, minute = minute,
                           second = second, microsecond = 0, utcoffset = Some off\<rparr>
                 else Inl ValueError)))))))
           | _ \<Rightarrow> Inl ValueError))"

section \<open>The parser: \<^verbatim>\<open>server_log_dashboard.py\<close>\<close>

text \<open>
  \<^verbatim>\<open>pattern = r'(\S+) (\S+) (\S+) \[([\w:/]+\s[+\-]\d{4})\] "(\S+) (\S+) (\S+)" (\d{3}) (\d+) "([^"]*)" "([^"]*)" (\d+)'\<close>
\<close>

definition pattern :: rx where
  "pattern = seq
     [Grp 1 (Rep non_space 1 None), Lit CHR '' '',
      Grp 2 (Rep non_space 1 None), Lit CHR '' '',
      Grp 3 (Rep non_space 1 None), Lit CHR '' '',
      Lit CHR ''['',
      Grp 4 (seq [Rep word_colon_slash 1 None, Cls is_space, Cls plus_minus,
                  Rep is_digit 4 (Some 4)]),
      Lit CHR '']'', Lit CHR '' '',
      Lit CHR 0x22,
      Grp 5 (Rep non_space 1 None), Lit CHR '' '',
      Grp 6 (Rep non_space 1 None), Lit CHR '' '',
      Grp 7 (Rep non_space 1 None),
      Lit CHR 0x22, Lit CHR '' '',
      Grp 8 (Rep is_digit 3 (Some 3)), Lit CHR '' '',
      Grp 9 (Rep is_digit 1 None), Lit CHR '' '',
      Lit CHR 0x22, Grp 10 (Rep non_quote 0 None), Lit CHR 0x22, Lit CHR '' '',
      Lit CHR 0x22, Grp 11 (Rep non_quote 0 None), Lit CHR 0x22, Lit CHR '' '',
      Grp 12 (Rep is_digit 1 None)]"

text \<open>The result of \<^verbatim>\<open>user_agents.parse\<close>, as far as the program reads it. The
  classifier is a library outside the repository: the parser takes it as a parameter.\<close>

record user_agent =
  browser_family :: string
  os_family :: string
  device_family :: string

text \<open>The dictionary that \<^verbatim>\<open>parse_log_line\<close> returns.\<close>

record log_record =
  ip :: string
  remote_log_name :: string
  user_id :: string
  datetime :: datetime
  "method" :: string
  api :: string
  protocol :: string
  status :: int
  bytes_sent :: int
  referrer :: string
  ua_string :: string
  browser :: string
  os :: string
  device :: string
  response_time :: int

text \<open>\<open>Inl e\<close>: the call raises \<open>e\<close>; \<open>Inr None\<close>: it returns \<^verbatim>\<open>None\<close>;
  \<open>Inr (Some r)\<close>: it returns the dictionary \<open>r\<close>.\<close>

definition parse_log_line :: "(string \<Rightarrow> user_agent) \<Rightarrow> string \<Rightarrow> error + log_record option" where
  "parse_log_line ua_parse line =
     (case re_match pattern line of
        None \<Rightarrow> Inr None
      | Some (found, g) \<Rightarrow>
          (case groups 12 g of
             [Some ip', Some remote_log_name', Some user_id', Some datetime_str, Some method',
              Some api', Some protocol', Some status', Some bytes_sent', Some referrer',
              Some ua_string', Some response_time'] \<Rightarrow>
               and_then (strptime datetime_str) (\<lambda>datetime_obj.
               let ua = ua_parse ua_string' in
               and_then (int_of_str status') (\<lambda>st.
               and_then (int_of_str bytes_sent') (\<lambda>bs.
               and_then (int_of_str response_time') (\<lambda>rt.
                 Inr (Some \<lparr>ip = ip', remote_log_name = remote_log_name', user_id = user_id',
                            datetime = datetime_obj, method = method', api = api',
                            protocol = protocol', status = st, bytes_sent = bs,
                            referrer = referrer', ua_string = ua_string',
                            browser = browser_family ua, os = os_family ua,
                            device = device_family ua, response_time = rt\<rparr>)))))
           | _ \<Rightarrow> Inl ValueError))"

text \<open>
  \<^verbatim>\<open>load_log_data\<close>: the loop over the lines of the file, appending each dictionary to
  \<^verbatim>\<open>data\<close>. An exception of \<^verbatim>\<open>parse_log_line\<close> is not caught and ends the call. The data
  frame is the list of its rows.
\<close>

fun load_loop :: "(string \<Rightarrow> user_agent) \<Rightarrow> string list \<Rightarrow> log_record list \<Rightarrow> error + log_record list" where
  "load_loop ua_parse [] data = Inr data"
| "load_loop ua_parse (line # f) data =
     (case parse_log_line ua_parse (strip line) of
        Inl e \<Rightarrow> Inl e
      | Inr None \<Rightarrow> load_loop ua_parse f data
      | Inr (Some parsed) \<Rightarrow> load_loop ua_parse f (data @ [parsed]))"

definition load_log_data :: "(string \<Rightarrow> user_agent) \<Rightarrow> string list \<Rightarrow> error + log_record list" where
  "load_log_data ua_parse f = load_loop ua_parse f []"

section \<open>The dashboard: filters, hourly counts and summary metrics\<close>

text \<open>
  The data frame is the list of its rows. The expressions of \<^verbatim>\<open>main\<close> are read with
  the meaning they have on a frame that has at least one row and whose \<^verbatim>\<open>datetime\<close>
  column carries one offset, which \<^verbatim>\<open>main\<close> needs before it reaches them (the
  \<^verbatim>\<open>.dt\<close> accessor and the date-range widget). \<open>date_of\<close> is \<^verbatim>\<open>.dt.date\<close>: the
  calendar date of the wall-clock time; dates are ordered as triples (year, month, day).
  The comparison of such a date with \<^verbatim>\<open>pd.Timestamp(d)\<close>, the midnight of the date \<open>d\<close>,
  is the comparison of the two dates.
\<close>

type_synonym date = "int \<times> int \<times> int"

definition date_of :: "datetime \<Rightarrow> date" where
  "date_of t = (year t, month t, day t)"

text \<open>\<^verbatim>\<open>Series.isin(values)\<close> and the conjunction \<^verbatim>\<open>&\<close> of two Boolean series.\<close>

definition isin :: "'a list \<Rightarrow> 'a list \<Rightarrow> bool list" where
  "isin series vals = map (\<lambda>x. x \<in> set vals) series"

definition series_and :: "bool list \<Rightarrow> bool list \<Rightarrow> bool list" where
  "series_and a b = map (\<lambda>(x, y). x \<and> y) (zip a b)"

text \<open>\<^verbatim>\<open>df[mask]\<close>: the rows at which the mask is true.\<close>

definition select_rows :: "'a list \<Rightarrow> bool list \<Rightarrow> 'a list" where
  "select_rows df msk = map fst (filter snd (zip df msk))"

text \<open>Lines 131 to 138 of \<^verbatim>\<open>main\<close>; \<open>date_range\<close> is the pair of dates of the widget.\<close>

definition filter_mask :: "log_record list \<Rightarrow> date \<times> date \<Rightarrow> int list \<Rightarrow> string list \<Rightarrow> bool list" where
  "filter_mask df date_range status_codes methods =
     series_and
       (series_and
          (series_and (map (\<lambda>r. fst date_range \<le> date_of (datetime r)) df)
                      (map (\<lambda>r. date_of (datetime r) \<le> snd date_range) df))
          (isin (map status df) status_codes))
       (isin (map method df) methods)"

definition apply_filters :: "log_record list \<Rightarrow> date \<times> date \<Rightarrow> int list \<Rightarrow> string list \<Rightarrow> log_record list" where
  "apply_filters df date_range status_codes methods =
     select_rows df (filter_mask df date_range status_codes methods)"










section \<open>The generator: \<^verbatim>\<open>test_file_generator.py\<close>\<close>

subsection \<open>Formatting\<close>

text \<open>\<^verbatim>\<open>str(n)\<close> of an integer, as the f-string writes it.\<close>

definition digit_char :: "nat \<Rightarrow> char" where
  "digit_char n = char_of (48 + n)"

fun str_nat :: "nat \<Rightarrow> string" where
  "str_nat n = (if n < 10 then [digit_char n] else str_nat (n div 10) @ [digit_char (n mod 10)])"

declare str_nat.simps [simp del]

definition str_int :: "int \<Rightarrow> string" where
  "str_int i = (if i < 0 then CHR ''-'' # str_nat (nat (- i)) else str_nat (nat i))"

text \<open>
  \<^verbatim>\<open>timestamp.strftime("%d/%b/%Y:%H:%M:%S")\<close> in the C locale: two digits for the day,
  hour, minute and second, the month's English abbreviation, and the year in decimal (the
  C library does not pad it).
\<close>

definition two_digits :: "int \<Rightarrow> string" where
  "two_digits n = [digit_char (nat n div 10), digit_char (nat n mod 10)]"

definition month_abbr :: "string list" where
  "month_abbr = [''Jan'', ''Feb'', ''Mar'', ''Apr'', ''May'', ''Jun'',
                 ''Jul'', ''Aug'', ''Sep'', ''Oct'', ''Nov'', ''Dec'']"

definition strftime :: "datetime \<Rightarrow> string" where
  "strftime t =
     two_digits (day t) @ ''/'' @ month_abbr ! nat (month t - 1) @ ''/'' @ str_int (year t) @ '':'' @
     two_digits (hour t) @ '':'' @ two_digits (minute t) @ '':'' @ two_digits (second t)"

subsection \<open>Random draws\<close>

text \<open>
  The generator reads the global random streams. The outcome of every random call that
  one \<^verbatim>\<open>generate_log_entry\<close> makes is a field of \<open>draws\<close>: \<open>u_...\<close> are the values of
  \<^verbatim>\<open>random.random()\<close>, in [0, 1), \<open>ip_index\<close> is the raw draw behind \<^verbatim>\<open>random.choice\<close>,
  the strings are what Faker returns, and the remaining fields are the samples of
  \<^verbatim>\<open>np.random.lognormal\<close> and \<^verbatim>\<open>np.random.normal\<close> (floats, taken as real numbers; a
  log-normal sample is positive, a normal sample is any number).
\<close>

record draws =
  u_method :: real
  u_endpoint :: real
  u_status :: real
  u_referrer :: real
  fake_uri :: string
  u_ip :: real
  ip_index :: nat
  fake_ipv4 :: string
  distribution_type :: real
  lognormal_bytes :: real
  normal_small :: real
  normal_large :: real
  u_user_agent :: real
  lognormal_rt :: real

text \<open>\<^verbatim>\<open>int(x)\<close> of a float: truncation towards zero.\<close>

definition int_of_float :: "real \<Rightarrow> int" where
  "int_of_float x = (if 0 \<le> x then \<lfloor>x\<rfloor> else \<lceil>x\<rceil>)"

text \<open>The dictionaries of \<^verbatim>\<open>LogGenerator.__init__\<close>, in insertion order.\<close>

definition endpoints :: "(string \<times> real) list" where
  "endpoints = [(''/api/users'', 0.2), (''/api/products'', 0.25), (''/api/orders'', 0.2),
                (''/api/auth/login'', 0.1), (''/api/auth/logout'', 0.05), (''/api/cart'', 0.1),
                (''/api/search'', 0.05), (''/health'', 0.03), (''/metrics'', 0.02)]"

definition methods :: "(string \<times> real) list" where
  "methods = [(''GET'', 0.6), (''POST'', 0.2), (''PUT'', 0.1), (''DELETE'', 0.1)]"

definition status_codes :: "(int \<times> real) list" where
  "status_codes = [(200, 0.75), (201, 0.05), (301, 0.02), (304, 0.03), (400, 0.05),
                   (401, 0.03), (403, 0.02), (404, 0.03), (500, 0.02)]"

definition user_agents :: "(string \<times> real) list" where
  "user_agents =
     [(''Mozilla/5.0 (Windows NT 10.0; Win64; x64) AppleWebKit/537.36 (KHTML, like Gecko) Chrome/91.0.4472.124 Safari/537.36'', 0.4),
      (''Mozilla/5.0 (Macintosh; Intel Mac OS X 10_15_7) AppleWebKit/605.1.15 (KHTML, like Gecko) Version/14.1.1 Safari/605.1.15'', 0.2),
      (''Mozilla/5.0 (Windows NT 10.0; Win64; x64; rv:89.0) Gecko/20100101 Firefox/89.0'', 0.15),
      (''Mozilla/5.0 (iPhone; CPU iPhone OS 14_6 like Mac OS X) AppleWebKit/605.1.15 (KHTML, like Gecko) Version/14.1.1 Mobile/15E148 Safari/604.1'', 0.1),
      (''Mozilla/5.0 (Linux; Android 11; SM-G991B) AppleWebKit/537.36 (KHTML, like Gecko) Chrome/91.0.4472.120 Mobile Safari/537.36'', 0.1),
      (''Mozilla/5.0 (Windows NT 10.0; Win64; x64) AppleWebKit/537.36 (KHTML, like Gecko) Chrome/91.0.4472.124 Safari/537.36 Edg/91.0.864.59'', 0.05)]"

text \<open>
  \<^verbatim>\<open>weighted_choice\<close>: \<^verbatim>\<open>random.choices(choices, weights=weights, k=1)[0]\<close> accumulates
  the weights, scales one \<^verbatim>\<open>random()\<close> by their total and bisects (to the right, among
  all but the last entry); \<open>u\<close> is that \<^verbatim>\<open>random()\<close>. Unpacking an empty dictionary and a
  total that is not positive raise \<^verbatim>\<open>ValueError\<close>.
\<close>

fun accumulate :: "real \<Rightarrow> real list \<Rightarrow> real list" where
  "accumulate acc [] = []"
| "accumulate acc (w # ws) = (acc + w) # accumulate (acc + w) ws"

definition bisect :: "real list \<Rightarrow> real \<Rightarrow> nat \<Rightarrow> nat" where
  "bisect a x hi = length (takeWhile (\<lambda>c. c \<le> x) (take hi a))"

definition weighted_choice :: "('a \<times> real) list \<Rightarrow> real \<Rightarrow> error + 'a" where
  "weighted_choice choices_dict u =
     (if choices_dict = [] then Inl ValueError
      else let choices = map fst choices_dict;
               weights = map snd choices_dict;
               cum_weights = accumulate 0 weights;
               total = last cum_weights
           in if total \<le> 0 then Inl ValueError
              else Inr (choices ! bisect cum_weights (u * total) (length choices - 1)))"

definition generate_response_time :: "draws \<Rightarrow> int" where
  "generate_response_time d = int_of_float (lognormal_rt d)"

definition generate_bytes_sent :: "draws \<Rightarrow> int" where
  "generate_bytes_sent d =
     (if distribution_type d < 0.7 then int_of_float (lognormal_bytes d)
      else if distribution_type d < 0.9 then int_of_float (normal_small d)
      else int_of_float (normal_large d))"

definition regular_ips :: "string list" where
  "regular_ips = [''192.168.1.100'', ''10.0.0.50'', ''172.16.0.100'', ''192.168.0.200'', ''10.0.0.25'']"

definition generate_ip :: "draws \<Rightarrow> string" where
  "generate_ip d =
     (if u_ip d < 0.3 then regular_ips ! (ip_index d mod length regular_ips) else fake_ipv4 d)"

definition generate_log_entry :: "datetime \<Rightarrow> draws \<Rightarrow> error + string" where
  \<open>generate_log_entry timestamp d =
     and_then (weighted_choice methods (u_method d)) (\<lambda>method.
     and_then (weighted_choice endpoints (u_endpoint d)) (\<lambda>endpoint.
     and_then (weighted_choice status_codes (u_status d)) (\<lambda>status_code.
     let referrer = (if u_referrer d < 0.3 then fake_uri d else ''-'') in
     and_then (weighted_choice user_agents (u_user_agent d)) (\<lambda>ua.
       Inr (generate_ip d @ '' - - '' @
            ''['' @ strftime timestamp @ '' +0000] '' @
            ''"'' @ method @ '' '' @ endpoint @ '' HTTP/1.1" '' @
            str_int status_code @ '' '' @ str_int (generate_bytes_sent d) @ '' '' @
            ''"'' @ referrer @ ''" "'' @ ua @ ''" '' @
            str_int (generate_response_time d) @ [CHR 0x0A])))))\<close>


subsection \<open>\<^verbatim>\<open>generate_logs\<close>\<close>

text \<open>
  A naive \<^verbatim>\<open>datetime\<close> is determined by the number of microseconds since
  0001-01-01 00:00:00; the loop of \<^verbatim>\<open>generate_logs\<close> is modelled on these numbers, where
  adding a \<^verbatim>\<open>timedelta\<close> is addition. \<open>datetime_of\<close> gives the fields back, the date by
  the library's conversion from a day number (\<^verbatim>\<open>_ord2ymd\<close>).
\<close>

definition days_before_month :: "int list" where
  "days_before_month = [- 1, 0, 31, 59, 90, 120, 151, 181, 212, 243, 273, 304, 334]"

definition days_in_month_table :: "int list" where
  "days_in_month_table = [- 1, 31, 28, 31, 30, 31, 30, 31, 31, 30, 31, 30, 31]"

definition ord2ymd :: "int \<Rightarrow> int \<times> int \<times> int" where
  "ord2ymd ordinal =
     (let n = ordinal - 1;
          n400 = n div 146097; n = n mod 146097;
          n100 = n div 36524; n = n mod 36524;
          n4 = n div 1461; n = n mod 1461;
          n1 = n div 365; n = n mod 365;
          y = n400 * 400 + 1 + n100 * 100 + n4 * 4 + n1
      in if n1 = 4 \<or> n100 = 4 then (y - 1, 12, 31)
         else let leapyear = (n1 = 3 \<and> (n4 \<noteq> 24 \<or> n100 = 3));
                  m = (n + 50) div 32;
                  preceding = days_before_month ! nat m + (if m > 2 \<and> leapyear then 1 else 0)
              in if preceding > n
                 then let m' = m - 1;
                          preceding' = preceding -
                            (days_in_month_table ! nat m' + (if m' = 2 \<and> leapyear then 1 else 0))
                      in (y, m', n - preceding' + 1)
                 else (y, m, n - preceding + 1))"

definition datetime_of :: "int \<Rightarrow> datetime" where
  "datetime_of t =
     (let days = t div 86400000000; us = t mod 86400000000;
          ymd = ord2ymd (days + 1)
      in \<lparr>year = fst ymd, month = fst (snd ymd), day = snd (snd ymd),
          hour = us div 3600000000, minute = us div 60000000 mod 60,
          second = us div 1000000 mod 60, microsecond = us mod 1000000,
          utcoffset = None\<rparr>)"

text \<open>
  What \<^verbatim>\<open>generate_logs\<close> reads from outside: the clock (\<^verbatim>\<open>datetime.now()\<close>, a naive
  local time), and the random draws. \<open>poisson5 i\<close> and \<open>poisson1 i\<close> are the outcomes of
  \<^verbatim>\<open>np.random.poisson(5)\<close> and \<^verbatim>\<open>np.random.poisson(1)\<close> in the \<open>i\<close>-th pass of the loop
  over the minutes, \<open>random_seconds i j\<close> is \<^verbatim>\<open>timedelta(seconds=random.random() * 60)\<close> in
  microseconds for the \<open>j\<close>-th entry of that minute, \<open>randbelow\<close> are the raw draws of
  \<^verbatim>\<open>random.sample\<close>, and \<open>entry_draws i\<close> are the draws of the \<open>i\<close>-th line written.
\<close>

record env =
  now :: int
  poisson5 :: "nat \<Rightarrow> nat"
  poisson1 :: "nat \<Rightarrow> nat"
  random_seconds :: "nat \<Rightarrow> nat \<Rightarrow> int"
  randbelow :: "nat \<Rightarrow> nat"
  entry_draws :: "nat \<Rightarrow> draws"

definition hour_of :: "int \<Rightarrow> int" where
  "hour_of t = t div 3600000000 mod 24"

text \<open>The \<^verbatim>\<open>while current_time < end_time\<close> loop; \<open>i\<close> counts its passes.\<close>

function minutes_loop :: "env \<Rightarrow> int \<Rightarrow> nat \<Rightarrow> int \<Rightarrow> int list \<Rightarrow> int list" where
  "minutes_loop e end_time i current_time timestamps =
     (if current_time < end_time then
        let hour = hour_of current_time;
            num_entries = (if 8 \<le> hour \<and> hour \<le> 18 then poisson5 e i else poisson1 e i);
            timestamps' = timestamps @
              map (\<lambda>j. current_time + random_seconds e i j) [0..<num_entries]
        in minutes_loop e end_time (Suc i) (current_time + 60000000) timestamps'
      else timestamps)"
  by pat_completeness auto
termination
  by (relation "measure (\<lambda>(e, end_time, i, current_time, timestamps). nat (end_time - current_time))") auto

declare minutes_loop.simps [simp del]

text \<open>
  \<^verbatim>\<open>random.sample(population, k)\<close>: \<open>k\<close> elements at distinct positions, in the order
  drawn; it raises \<^verbatim>\<open>ValueError\<close> when \<open>k\<close> is negative or larger than the population.
  The selection is the library's loop over a shrinking pool, each draw reduced to the
  range \<^verbatim>\<open>randbelow\<close> has.
\<close>

fun sample_loop :: "(nat \<Rightarrow> nat) \<Rightarrow> nat \<Rightarrow> nat \<Rightarrow> 'a list \<Rightarrow> 'a list" where
  "sample_loop rb i 0 pool = []"
| "sample_loop rb i (Suc k) pool =
     (if pool = [] then []
      else let j = rb i mod length pool
           in pool ! j # sample_loop rb (Suc i) k (butlast (pool[j := last pool])))"

definition random_sample :: "(nat \<Rightarrow> nat) \<Rightarrow> 'a list \<Rightarrow> int \<Rightarrow> error + 'a list" where
  "random_sample rb population k =
     (if k < 0 \<or> int (length population) < k then Inl ValueError
      else Inr (sample_loop rb 0 (nat k) population))"

text \<open>The loop that writes one entry for each timestamp; \<open>i\<close> counts the lines.\<close>

fun write_entries :: "env \<Rightarrow> nat \<Rightarrow> int list \<Rightarrow> error + string list" where
  "write_entries e i [] = Inr []"
| "write_entries e i (timestamp # timestamps) =
     and_then (generate_log_entry (datetime_of timestamp) (entry_draws e i)) (\<lambda>entry.
     and_then (write_entries e (Suc i) timestamps) (\<lambda>entries. Inr (entry # entries)))"

text \<open>
  \<^verbatim>\<open>generate_logs(num_lines, output_file)\<close>: the result is the text written to the file, one
  element for each \<^verbatim>\<open>f.write\<close>, and the number that the final \<^verbatim>\<open>print\<close> reports as generated.
\<close>

definition shaped_timestamps :: "env \<Rightarrow> int list" where
  "shaped_timestamps e =
     (let end_time = now e; start_time = end_time - 7 * 86400000000
      in minutes_loop e end_time 0 start_time [])"

definition generate_logs :: "env \<Rightarrow> int \<Rightarrow> error + string list \<times> int" where
  "generate_logs e num_lines =
     (let timestamps = sort (shaped_timestamps e) in
      and_then (if int (length timestamps) > num_lines
                then random_sample (randbelow e) timestamps num_lines
                else Inr timestamps) (\<lambda>timestamps'.
      and_then (write_entries e 0 (sort timestamps')) (\<lambda>entries.
        Inr (entries, num_lines))))"


section \<open>Notions used to state the properties\<close>

text \<open>A classifier that knows no user agent, for statements about concrete files.\<close>

definition other_ua :: "string \<Rightarrow> user_agent" where
  "other_ua s = \<lparr>browser_family = ''Other'', os_family = ''Other'', device_family = ''Other''\<rparr>"

text \<open>
  The lines of a file by what \<^verbatim>\<open>parse_log_line\<close> does on them after trimming: it raises,
  it returns a dictionary (\<open>successes\<close>, in the order of the lines), it returns
  \<^verbatim>\<open>None\<close> on a line that is not blank (\<open>dropped\<close>), or the line is blank.
\<close>

definition raises :: "(string \<Rightarrow> user_agent) \<Rightarrow> string \<Rightarrow> bool" where
  "raises ua_parse line = isl (parse_log_line ua_parse (strip line))"

definition successes :: "(string \<Rightarrow> user_agent) \<Rightarrow> string list \<Rightarrow> log_record list" where
  "successes ua_parse f =
     concat (map (\<lambda>line. case parse_log_line ua_parse (strip line) of
                            Inr (Some parsed) \<Rightarrow> [parsed] | _ \<Rightarrow> []) f)"

definition dropped :: "(string \<Rightarrow> user_agent) \<Rightarrow> string list \<Rightarrow> string list" where
  "dropped ua_parse f =
     filter (\<lambda>line. strip line \<noteq> [] \<and> parse_log_line ua_parse (strip line) = Inr None) f"

definition blank_lines :: "string list \<Rightarrow> string list" where
  "blank_lines f = filter (\<lambda>line. strip line = []) f"


text \<open>Lines and a record used as concrete inputs: a well-formed line, the same line with a
  date that does not exist, and a text that is not a log line.\<close>

definition health_line :: string where
  \<open>health_line =
     ''10.0.0.50 - - [05/Nov/2024:09:07:03 +0000] "GET /health HTTP/1.1" 200 512 "-" "curl/8.0" 20''\<close>

definition february_line :: string where
  \<open>february_line =
     ''10.0.0.50 - - [31/Feb/2024:09:07:03 +0000] "GET /health HTTP/1.1" 200 512 "-" "curl/8.0" 20''\<close>

definition junk_line :: string where
  "junk_line = ''not a valid log line''"

definition health_record :: "(string \<Rightarrow> user_agent) \<Rightarrow> log_record" where
  "health_record ua_parse =
     \<lparr>ip = ''10.0.0.50'', remote_log_name = ''-'', user_id = ''-'',
      datetime = \<lparr>year = 2024, month = 11, day = 5, hour = 9, minute = 7, second = 3,
                   microsecond = 0, utcoffset = Some 0\<rparr>,
      method = ''GET'', api = ''/health'', protocol = ''HTTP/1.1'', status = 200,
      bytes_sent = 512, referrer = ''-'', ua_string = ''curl/8.0'',
      browser = browser_family (ua_parse ''curl/8.0''), os = os_family (ua_parse ''curl/8.0''),
      device = device_family (ua_parse ''curl/8.0''), response_time = 20\<rparr>"

text \<open>Draws, a timestamp and a clock used as concrete inputs of the generator: draws whose
  size is taken from the normal distribution around 500 and falls below zero, the line
  they give, and an environment whose Poisson draws are the two means in every minute.\<close>

definition unlucky_draws :: draws where
  "unlucky_draws =
     \<lparr>u_method = 0.5, u_endpoint = 0.3, u_status = 0.4, u_referrer = 0.5,
      fake_uri = ''https://www.example.com/main/'', u_ip = 0.1, ip_index = 1,
      fake_ipv4 = ''203.0.113.7'', distribution_type = 0.8, lognormal_bytes = 2980.3,
      normal_small = - 1.5, normal_large = 500000.7, u_user_agent = 0.2, lognormal_rt = 20.08\<rparr>"

definition november_morning :: datetime where
  "november_morning = \<lparr>year = 2024, month = 11, day = 5, hour = 9, minute = 7, second = 3,
      microsecond = 123456, utcoffset = None\<rparr>"

definition unlucky_line :: string where
  \<open>unlucky_line = ''10.0.0.50 - - [05/Nov/2024:09:07:03 +0000] "GET /api/products HTTP/1.1" 200 -1 "-" "Mozilla/5.0 (Windows NT 10.0; Win64; x64) AppleWebKit/537.36 (KHTML, like Gecko) Chrome/91.0.4472.124 Safari/537.36" 20''\<close>

definition steady_env :: env where
  "steady_env =
     \<lparr>now = 63866394423123456, poisson5 = (\<lambda>i. 5), poisson1 = (\<lambda>i. 1),
      random_seconds = (\<lambda>i j. 1000000 * int j), randbelow = (\<lambda>i. 0),
      entry_draws = (\<lambda>i. unlucky_draws\<lparr>normal_small := 512.3\<rparr>)\<rparr>"

section \<open>Notions used in the proofs about the pattern\<close>

text \<open>
  The captures of the first result of a match; a result with text put in front; the
  lengths that a greedy run tries, longest first; a pattern that can only start on a
  character outside a class; a piece with at most one result, which text appended to the
  input does not change; and the relation between the captures for a line and for the
  line with a suffix: all groups but the last are the same, and the last group has only
  gained digits (none, when the suffix does not start with a digit).
\<close>

definition caps_hd :: "(string \<times> string \<times> caps) list \<Rightarrow> caps option" where
  "caps_hd L = (case L of [] \<Rightarrow> None | (x, rest, g) # other \<Rightarrow> Some g)"

definition prepend :: "string \<Rightarrow> string \<times> string \<times> caps \<Rightarrow> string \<times> string \<times> caps" where
  "prepend a = (\<lambda>(y, r, g). (a @ y, r, g))"

definition cands :: "(char \<Rightarrow> bool) \<Rightarrow> nat \<Rightarrow> string \<Rightarrow> nat list" where
  "cands P lo s = rev [lo..<Suc (length (takeWhile P s))]"

definition needs_outside :: "(char \<Rightarrow> bool) \<Rightarrow> rx \<Rightarrow> bool" where
  "needs_outside P r = (\<forall>s g. rx_match r s g \<noteq> [] \<longrightarrow> s \<noteq> [] \<and> \<not> P (hd s))"




section \<open>The dashboard operations\<close>

subsection \<open>Filtering\<close>

lemma series_and_map: "series_and (map P xs) (map Q xs) = map (\<lambda>x. P x \<and> Q x) xs"
  by (induction xs) (simp_all add: series_and_def)

lemma isin_map: "isin (map f xs) vals = map (\<lambda>x. f x \<in> set vals) xs"
  by (simp add: isin_def)

lemma select_rows_map: "select_rows xs (map P xs) = filter P xs"
  by (induction xs) (simp_all add: select_rows_def)

lemma apply_filters_eq_filter:
  "apply_filters df (start_date, end_date) codes verbs =
     filter (\<lambda>r. start_date \<le> date_of (datetime r) \<and> date_of (datetime r) \<le> end_date \<and>
                 status r \<in> set codes \<and> method r \<in> set verbs) df"
  by (simp add: apply_filters_def filter_mask_def isin_map series_and_map select_rows_map conj_assoc)

text \<open>
  Claim C6. For every data frame, date range, list of status codes and list of methods,
  the filter keeps exactly the rows whose date lies in the inclusive range, whose status is
  among the codes and whose method is among the methods, in their order; with no status
  code selected, or no method selected, the result has size 0 whatever the range is.
\<close>

theorem filter_keeps_iff:
  "apply_filters df (start_date, end_date) codes verbs =
     filter (\<lambda>r. start_date \<le> date_of (datetime r) \<and> date_of (datetime r) \<le> end_date \<and>
                 status r \<in> set codes \<and> method r \<in> set verbs) df
   \<and> length (apply_filters df (start_date, end_date) [] verbs) = 0
   \<and> length (apply_filters df (start_date, end_date) codes []) = 0"
  by (simp add: apply_filters_eq_filter)

subsection \<open>Requests per hour\<close>



subsection \<open>Summary metrics\<close>



section \<open>Loading a file\<close>

lemma load_loop_drop:
  "parse_log_line ua_parse (strip bad) = Inr None \<Longrightarrow>
   load_loop ua_parse (pre @ bad # post) data = load_loop ua_parse (pre @ post) data"
  by (induction pre arbitrary: data) (simp_all split: sum.splits option.splits)

lemma parse_unmatched: "re_match pattern line = None \<Longrightarrow> parse_log_line ua_parse line = Inr None"
  by (simp add: parse_log_line_def)

lemma re_match_empty: "re_match pattern [] = None"
  by code_simp

lemma load_loop_no_raise:
  "\<forall>line\<in>set f. \<not> raises ua_parse line \<Longrightarrow>
   load_loop ua_parse f data = Inr (data @ successes ua_parse f)"
proof (induction f arbitrary: data)
  case Nil
  then show ?case by (simp add: successes_def)
next
  case (Cons line f)
  then show ?case
    by (cases "parse_log_line ua_parse (strip line)")
       (auto simp: successes_def raises_def split: option.splits)
qed

lemma count_partition:
  "\<forall>line\<in>set f. \<not> raises ua_parse line \<Longrightarrow>
   length (successes ua_parse f) + length (dropped ua_parse f) + length (blank_lines f) = length f"
proof (induction f)
  case Nil
  then show ?case by (simp add: successes_def dropped_def blank_lines_def)
next
  case (Cons line f)
  have blank: "strip line = [] \<Longrightarrow> parse_log_line ua_parse (strip line) = Inr None"
    by (simp add: parse_unmatched re_match_empty)
  from Cons show ?case
    using blank
    by (cases "parse_log_line ua_parse (strip line)")
       (auto simp: successes_def dropped_def blank_lines_def raises_def split: option.splits)
qed


subsection \<open>The sample lines\<close>

lemma strip_health_line: "strip (health_line @ [CHR 0x0A]) = health_line"
  by code_simp

lemma strip_february_line: "strip (february_line @ [CHR 0x0A]) = february_line"
  by code_simp

lemma strip_junk_line: "strip (junk_line @ [CHR 0x0A]) = junk_line"
  by code_simp

lemma parse_health_line: "parse_log_line ua_parse health_line = Inr (Some (health_record ua_parse))"
  by code_simp

lemma parse_february_line: "parse_log_line ua_parse february_line = Inl ValueError"
  by code_simp

lemma junk_line_unmatched: "re_match pattern junk_line = None"
  by code_simp

lemma strip_spaces: "strip [CHR '' '', CHR 0x0A] = []"
  by code_simp

lemma parse_junk_line: "parse_log_line ua_parse junk_line = Inr None"
  by (rule parse_unmatched[OF junk_line_unmatched])

lemma parse_blank: "parse_log_line ua_parse [] = Inr None"
  by (rule parse_unmatched[OF re_match_empty])

text \<open>
  Claim C3, as stated, fails: a file of one malformed line loads to the same result as an
  empty file; nothing that is returned records the failure.
\<close>

theorem failures_leave_no_trace:
  "load_log_data other_ua [junk_line @ [CHR 0x0A]] = Inr [] \<and> load_log_data other_ua [] = Inr []"
  by (simp add: load_log_data_def strip_junk_line parse_junk_line)

text \<open>
  Claim C3, amended. For every sequence of lines none of which makes the parser raise,
  loading returns exactly the successfully parsed records, in the order of the lines; the
  other lines are dropped without a record of them, and successes, dropped lines that are
  not blank, and blank lines add up to the number of lines.
\<close>

theorem load_counts:
  assumes "\<forall>line\<in>set f. \<not> raises ua_parse line"
  shows "load_log_data ua_parse f = Inr (successes ua_parse f) \<and>
         length (successes ua_parse f) + length (dropped ua_parse f) + length (blank_lines f)
           = length f"
  using assms by (simp add: load_log_data_def load_loop_no_raise count_partition)

text \<open>
  The amended claim C3 on a file of three lines: a well-formed one, a malformed one and a
  blank one.
\<close>

theorem load_counts_witness:
  "\<not> raises other_ua (health_line @ [CHR 0x0A]) \<and>
   \<not> raises other_ua (junk_line @ [CHR 0x0A]) \<and>
   \<not> raises other_ua [CHR '' '', CHR 0x0A] \<and>
   load_log_data other_ua [health_line @ [CHR 0x0A], junk_line @ [CHR 0x0A], [CHR '' '', CHR 0x0A]]
     = Inr [health_record other_ua] \<and>
   length (successes other_ua [health_line @ [CHR 0x0A], junk_line @ [CHR 0x0A], [CHR '' '', CHR 0x0A]]) = 1 \<and>
   length (dropped other_ua [health_line @ [CHR 0x0A], junk_line @ [CHR 0x0A], [CHR '' '', CHR 0x0A]]) = 1 \<and>
   length (blank_lines [health_line @ [CHR 0x0A], junk_line @ [CHR 0x0A], [CHR '' '', CHR 0x0A]]) = 1"
proof -
  let ?f = "[health_line @ [CHR 0x0A], junk_line @ [CHR 0x0A], [CHR '' '', CHR 0x0A]]"
  have h: "\<forall>line\<in>set ?f. \<not> raises other_ua line"
    by (simp add: raises_def strip_health_line strip_junk_line strip_spaces parse_health_line
          parse_junk_line parse_blank)
  have j: "junk_line \<noteq> []" "health_line \<noteq> []" by (simp_all add: junk_line_def health_line_def)
  have s: "successes other_ua ?f = [health_record other_ua]"
    by (simp add: successes_def strip_health_line strip_junk_line strip_spaces parse_health_line
          parse_junk_line parse_blank)
  have d: "length (dropped other_ua ?f) = 1"
    using j by (simp add: dropped_def strip_health_line strip_junk_line strip_spaces parse_health_line
          parse_junk_line parse_blank)
  have b: "length (blank_lines ?f) = 1"
    using j by (simp add: blank_lines_def strip_health_line strip_junk_line strip_spaces)
  show ?thesis
    using h load_counts[OF h] s d b by simp
qed

text \<open>
  Claim C1, as stated, fails: a line whose time text has the shape of a time but names
  the 31st of February makes the whole load raise \<^verbatim>\<open>ValueError\<close>, although the two lines
  around it load to two records without it; and for a line that does not match, the
  parser returns \<^verbatim>\<open>None\<close>, which carries neither the line nor a reason.
\<close>

theorem invalid_date_aborts_load:
  "load_log_data other_ua
     [health_line @ [CHR 0x0A], february_line @ [CHR 0x0A], health_line @ [CHR 0x0A]] = Inl ValueError \<and>
   load_log_data other_ua [health_line @ [CHR 0x0A], health_line @ [CHR 0x0A]]
     = Inr [health_record other_ua, health_record other_ua] \<and>
   parse_log_line other_ua junk_line = Inr None"
  by (simp add: load_log_data_def strip_health_line strip_february_line parse_health_line
        parse_february_line parse_junk_line)

text \<open>
  Claim C1, amended. For every line that, trimmed, does not match the pattern, the parser
  returns \<^verbatim>\<open>None\<close> and does not raise, and the line, put anywhere in a file, changes
  nothing in what loading the file gives: the records of the lines around it, their
  number and their values, are the same as without it.
\<close>

theorem unmatched_line_is_skipped:
  assumes "re_match pattern (strip bad) = None"
  shows "parse_log_line ua_parse (strip bad) = Inr None \<and>
         load_log_data ua_parse (pre @ bad # post) = load_log_data ua_parse (pre @ post)"
  using assms by (simp add: parse_unmatched load_log_data_def load_loop_drop)

text \<open>
  The amended claim C1 on a malformed line between two well-formed lines.
\<close>

theorem unmatched_line_is_skipped_witness:
  "re_match pattern (strip (junk_line @ [CHR 0x0A])) = None \<and>
   parse_log_line other_ua (strip (junk_line @ [CHR 0x0A])) = Inr None \<and>
   load_log_data other_ua [health_line @ [CHR 0x0A], junk_line @ [CHR 0x0A], health_line @ [CHR 0x0A]]
     = load_log_data other_ua [health_line @ [CHR 0x0A], health_line @ [CHR 0x0A]]"
proof -
  have h: "re_match pattern (strip (junk_line @ [CHR 0x0A])) = None"
    by (simp add: strip_junk_line junk_line_unmatched)
  show ?thesis
    using h unmatched_line_is_skipped[OF h, of other_ua "[health_line @ [CHR 0x0A]]" "[health_line @ [CHR 0x0A]]"]
    by simp
qed

section \<open>The pattern is anchored at the start only\<close>

lemma caps_hd_map_prepend [simp]: "caps_hd (map (prepend a) L) = caps_hd L"
  by (cases L) (auto simp: caps_hd_def prepend_def)

lemma caps_hd_Nil_iff: "caps_hd L = None \<longleftrightarrow> L = []"
  by (cases L) (auto simp: caps_hd_def)

lemma rx_match_Seq: "rx_match (Seq a b) s g =
   concat (map (\<lambda>(x, r, g'). map (prepend x) (rx_match b r g')) (rx_match a s g))"
  by (simp add: prepend_def)

lemma rx_match_Rep_None: "rx_match (Rep P lo None) s g = map (\<lambda>k. (take k s, drop k s, g)) (cands P lo s)"
  by (simp add: cands_def Let_def)

lemma concat_single:
  "distinct ks \<Longrightarrow> (\<And>k. k \<in> set ks \<Longrightarrow> k \<noteq> k0 \<Longrightarrow> f k = []) \<Longrightarrow>
   concat (map f ks) = (if k0 \<in> set ks then f k0 else [])"
  by (induction ks) auto

lemma distinct_cands [simp]: "distinct (cands P lo s)"
  by (simp add: cands_def)

lemma set_cands: "set (cands P lo s) = {k. lo \<le> k \<and> k \<le> length (takeWhile P s)}"
  by (auto simp: cands_def)

lemma drop_in_run:
  assumes "k < length (takeWhile P s)"
  shows "drop k s \<noteq> [] \<and> P (hd (drop k s))"
proof -
  have "k < length s" using assms by (meson length_takeWhile_le less_le_trans)
  moreover have "P (s ! k)"
    using assms by (metis nth_mem set_takeWhileD takeWhile_nth)
  ultimately show ?thesis by (simp add: hd_drop_conv_nth)
qed

text \<open>A greedy run followed by a pattern that needs a character outside the class: only
  the longest run can be continued.\<close>

lemma run_then_outside:
  assumes "needs_outside P r" and F: "\<And>k. F k [] = []"
  shows "concat (map (\<lambda>k. F k (rx_match r (drop k s) (G k))) (cands P lo s)) =
         (if lo \<le> length (takeWhile P s)
          then F (length (takeWhile P s)) (rx_match r (drop (length (takeWhile P s)) s) (G (length (takeWhile P s))))
          else [])"
proof -
  let ?n = "length (takeWhile P s)"
  have "concat (map (\<lambda>k. F k (rx_match r (drop k s) (G k))) (cands P lo s)) =
        (if ?n \<in> set (cands P lo s) then F ?n (rx_match r (drop ?n s) (G ?n)) else [])"
  proof (rule concat_single)
    show "distinct (cands P lo s)" by simp
  next
    fix k assume "k \<in> set (cands P lo s)" "k \<noteq> ?n"
    then have "k < ?n" by (auto simp: set_cands)
    then have "drop k s \<noteq> [] \<and> P (hd (drop k s))" by (rule drop_in_run)
    with assms(1) have "rx_match r (drop k s) (G k) = []"
      unfolding needs_outside_def by blast
    then show "F k (rx_match r (drop k s) (G k)) = []" by (simp add: F)
  qed
  then show ?thesis by (simp add: set_cands)
qed

lemma seq_grp_run:
  assumes "needs_outside P r"
  shows "rx_match (Seq (Grp i (Rep P lo None)) r) s g =
     (if lo \<le> length (takeWhile P s)
      then map (prepend (takeWhile P s)) (rx_match r (dropWhile P s) (g(i \<mapsto> takeWhile P s)))
      else [])"
proof -
  have "rx_match (Seq (Grp i (Rep P lo None)) r) s g =
        concat (map (\<lambda>k. map (prepend (take k s)) (rx_match r (drop k s) (g(i \<mapsto> take k s)))) (cands P lo s))"
    by (simp add: rx_match_Seq rx_match_Rep_None comp_def del: rx_match.simps(4,5))
  also have "\<dots> = (if lo \<le> length (takeWhile P s)
          then map (prepend (take (length (takeWhile P s)) s))
                 (rx_match r (drop (length (takeWhile P s)) s) (g(i \<mapsto> take (length (takeWhile P s)) s)))
          else [])"
    by (rule run_then_outside[OF assms, where F = "\<lambda>k. map (prepend (take k s))" and G = "\<lambda>k. g(i \<mapsto> take k s)"]) simp
  finally show ?thesis
    by (simp add: takeWhile_eq_take[symmetric] dropWhile_eq_drop[symmetric])
qed

lemma seq_run:
  assumes "needs_outside P r"
  shows "rx_match (Seq (Rep P lo None) r) s g =
     (if lo \<le> length (takeWhile P s)
      then map (prepend (takeWhile P s)) (rx_match r (dropWhile P s) g)
      else [])"
proof -
  have "rx_match (Seq (Rep P lo None) r) s g =
        concat (map (\<lambda>k. map (prepend (take k s)) (rx_match r (drop k s) g)) (cands P lo s))"
    by (simp add: rx_match_Seq rx_match_Rep_None comp_def del: rx_match.simps(4,5))
  also have "\<dots> = (if lo \<le> length (takeWhile P s)
          then map (prepend (take (length (takeWhile P s)) s))
                 (rx_match r (drop (length (takeWhile P s)) s) g)
          else [])"
    by (rule run_then_outside[OF assms, where F = "\<lambda>k. map (prepend (take k s))" and G = "\<lambda>k. g"]) simp
  finally show ?thesis
    by (simp add: takeWhile_eq_take[symmetric] dropWhile_eq_drop[symmetric])
qed

lemma two_lits:
  "rx_match (Seq (Lit q) (Seq (Lit c) r)) s g =
     (case s of x # y # zs \<Rightarrow> if x = q \<and> y = c then map (prepend [q, c]) (rx_match r zs g) else []
      | _ \<Rightarrow> [])"
  by (auto simp: prepend_def split: list.splits)

lemma seq_grp_run_quote:
  assumes "P q" "\<not> P c"
  shows "rx_match (Seq (Grp i (Rep P lo None)) (Seq (Lit q) (Seq (Lit c) r))) s g =
     (let n = length (takeWhile P s) in
      if lo \<le> n - 1
      then map (prepend (take (n - 1) s))
             (rx_match (Seq (Lit q) (Seq (Lit c) r)) (drop (n - 1) s) (g(i \<mapsto> take (n - 1) s)))
      else [])"
proof -
  let ?n = "length (takeWhile P s)"
  let ?R = "Seq (Lit q) (Seq (Lit c) r)"
  let ?f = "\<lambda>k. map (prepend (take k s)) (rx_match ?R (drop k s) (g(i \<mapsto> take k s)))"
  have eq: "rx_match (Seq (Grp i (Rep P lo None)) ?R) s g = concat (map ?f (cands P lo s))"
    by (simp add: rx_match_Seq rx_match_Rep_None comp_def del: rx_match.simps(4,5))
  have only: "?f k = []" if k: "k \<in> set (cands P lo s)" "k \<noteq> ?n - 1" for k
  proof (rule ccontr)
    assume "?f k \<noteq> []"
    then obtain zs where "q # c # zs = drop k s"
      by (auto simp: two_lits split: list.splits if_splits)
    then have d: "drop k s = q # c # zs" by simp
    from k have "k \<le> ?n" by (simp add: set_cands)
    have "k \<noteq> ?n"
    proof
      assume "k = ?n"
      then have "dropWhile P s = q # c # zs" using d by (simp add: dropWhile_eq_drop)
      then show False using assms(1) by (metis hd_dropWhile list.sel(1) list.simps(3))
    qed
    moreover have "\<not> Suc k < ?n"
    proof
      assume "Suc k < ?n"
      then have "P (hd (drop (Suc k) s))" using drop_in_run by blast
      moreover have "drop (Suc k) s = c # zs" using d by (metis drop_Suc tl_drop list.sel(3))
      ultimately show False using assms(2) by simp
    qed
    ultimately show False using \<open>k \<le> ?n\<close> k(2) by linarith
  qed
  have "concat (map ?f (cands P lo s)) = (if ?n - 1 \<in> set (cands P lo s) then ?f (?n - 1) else [])"
  proof (rule concat_single)
    show "distinct (cands P lo s)" by simp
  next
    fix k assume "k \<in> set (cands P lo s)" "k \<noteq> ?n - 1"
    then show "?f k = []" by (rule only)
  qed
  then show ?thesis
    unfolding eq by (simp add: set_cands Let_def)
qed

subsection \<open>Deterministic pieces\<close>









lemma needs_outside_Lit: "\<not> P c \<Longrightarrow> needs_outside P (Seq (Lit c) r)"
  by (auto simp: needs_outside_def split: list.splits if_splits)

lemma needs_outside_Cls: "(\<And>x. P x \<Longrightarrow> \<not> Q x) \<Longrightarrow> needs_outside P (Seq (Cls Q) r)"
  by (auto simp: needs_outside_def split: list.splits if_splits)



lemma prepend_comp [simp]: "prepend a \<circ> prepend b = prepend (a @ b)"
  by (auto simp: prepend_def fun_eq_iff)


lemma concat_map_singleton: "concat (map (\<lambda>k. [f k]) ks) = map f ks"
  by (induction ks) simp_all

lemma hd_cands: "lo \<le> length (takeWhile P s) \<Longrightarrow>
   cands P lo s = length (takeWhile P s) # rev [lo..<length (takeWhile P s)]"
  by (simp add: cands_def)

lemma cands_Nil: "\<not> lo \<le> length (takeWhile P s) \<Longrightarrow> cands P lo s = []"
  by (simp add: cands_def)

lemma last_group_caps:
  "caps_hd (rx_match (Seq (Grp i (Rep P lo None)) Eps) s g) =
     (if lo \<le> length (takeWhile P s) then Some (g(i \<mapsto> takeWhile P s)) else None)"
proof -
  have "rx_match (Seq (Grp i (Rep P lo None)) Eps) s g =
        map (\<lambda>k. (take k s, drop k s, g(i \<mapsto> take k s))) (cands P lo s)"
    by (simp add: rx_match_Seq rx_match_Rep_None comp_def prepend_def concat_map_singleton del: rx_match.simps(4,5))
  then show ?thesis
    by (cases "lo \<le> length (takeWhile P s)")
       (simp_all add: hd_cands cands_Nil caps_hd_def takeWhile_eq_take[symmetric])
qed


lemma ns_space: "\<not> non_space CHR '' ''" by (simp add: non_space_def is_space_def code_def)
lemma ns_quote: "non_space (CHR 0x22)" by (simp add: non_space_def is_space_def code_def)
lemma dg_space: "\<not> is_digit CHR '' ''" by (simp add: is_digit_def code_def)
lemma nq_quote: "\<not> non_quote (CHR 0x22)" by (simp add: non_quote_def)
lemma wcs_space: "word_colon_slash x \<Longrightarrow> \<not> is_space x"
  by (auto simp: word_colon_slash_def is_word_def is_space_def code_def Let_def)










lemma re_match_caps_hd:
  "re_match r s = (case rx_match r s (\<lambda>i. None) of [] \<Rightarrow> None | (x, rest, g) # other \<Rightarrow> Some (x, g))"
  by (simp add: re_match_def)





subsection \<open>Every line of the grammar is matched\<close>

text \<open>
  The converse direction, for the grammar of the log format: a line made of the twelve
  fields with their delimiters, followed by anything that does not start with a digit, is
  matched, and the groups are the fields.
\<close>

lemma caps_hd_Some_nonempty: "caps_hd L = Some g \<Longrightarrow> L \<noteq> []"
  by (auto simp: caps_hd_def)

lemma fwd_lit:
  "caps_hd (rx_match r s g) = Some g' \<Longrightarrow> caps_hd (rx_match (Seq (Lit c) r) (c # s) g) = Some g'"
  by (simp add: rx_match_Seq del: rx_match.simps(5))

lemma takeWhile_all_then:
  "list_all P a \<Longrightarrow> s = [] \<or> \<not> P (hd s) \<Longrightarrow> takeWhile P (a @ s) = a \<and> dropWhile P (a @ s) = s"
  by (cases s) (auto simp: list_all_iff takeWhile_append dropWhile_append)

lemma fwd_tok:
  assumes "needs_outside P r" "list_all P a" "lo \<le> length a"
    and "caps_hd (rx_match r s (g(i \<mapsto> a))) = Some g'"
  shows "caps_hd (rx_match (Seq (Grp i (Rep P lo None)) r) (a @ s) g) = Some g'"
proof -
  have "rx_match r s (g(i \<mapsto> a)) \<noteq> []" using assms(4) by (rule caps_hd_Some_nonempty)
  then have "s \<noteq> [] \<and> \<not> P (hd s)" using assms(1) unfolding needs_outside_def by blast
  then have "takeWhile P (a @ s) = a \<and> dropWhile P (a @ s) = s"
    using assms(2) by (intro takeWhile_all_then) simp_all
  then show ?thesis
    using assms(3,4) by (simp add: seq_grp_run[OF assms(1)] del: rx_match.simps)
qed

lemma fwd_tok_lit:
  assumes "\<not> P c" "list_all P a" "lo \<le> length a"
    and "caps_hd (rx_match r s (g(i \<mapsto> a))) = Some g'"
  shows "caps_hd (rx_match (Seq (Grp i (Rep P lo None)) (Seq (Lit c) r)) (a @ c # s) g) = Some g'"
  using assms(1) by (intro fwd_tok[where P = P] needs_outside_Lit[where P = P] fwd_lit assms(2,3,4))

lemma fwd_tok_quote:
  assumes "P q" "\<not> P c" "list_all P a" "lo \<le> length a"
    and "caps_hd (rx_match r s (g(i \<mapsto> a))) = Some g'"
  shows "caps_hd (rx_match (Seq (Grp i (Rep P lo None)) (Seq (Lit q) (Seq (Lit c) r))) (a @ q # c # s) g)
         = Some g'"
proof -
  have tw: "takeWhile P (a @ q # c # s) = a @ [q]"
    using assms(1,2,3) by (simp add: list_all_iff takeWhile_append)
  have d: "drop (length a) (a @ q # c # s) = q # c # s" by simp
  have "rx_match (Seq (Grp i (Rep P lo None)) (Seq (Lit q) (Seq (Lit c) r))) (a @ q # c # s) g
        = map (prepend a) (rx_match (Seq (Lit q) (Seq (Lit c) r)) (q # c # s) (g(i \<mapsto> a)))"
    using assms(4) unfolding seq_grp_run_quote[OF assms(1,2)] tw Let_def by simp
  also have "\<dots> = map (prepend a) (map (prepend [q, c]) (rx_match r s (g(i \<mapsto> a))))"
    unfolding two_lits by simp
  finally show ?thesis using assms(5) by (simp del: rx_match.simps)
qed

lemma fwd_fixed:
  assumes "list_all P a" "length a = n"
    and "caps_hd (rx_match r s (g(i \<mapsto> a))) = Some g'"
  shows "caps_hd (rx_match (Seq (Grp i (Rep P n (Some n))) r) (a @ s) g) = Some g'"
proof -
  have "n \<le> length (takeWhile P (a @ s))"
    using assms(1,2) by (simp add: list_all_iff takeWhile_append)
  then have "rx_match (Rep P n (Some n)) (a @ s) g = [(a, s, g)]"
    using assms(2) by (simp add: Let_def min_def)
  then show ?thesis
    using assms(3) by (simp add: rx_match_Seq del: rx_match.simps(4,5))
qed

lemma fwd_last:
  assumes "list_all is_digit a" "a \<noteq> []" "rest = [] \<or> \<not> is_digit (hd rest)"
  shows "caps_hd (rx_match (Seq (Grp i (Rep is_digit 1 None)) Eps) (a @ rest) g) = Some (g(i \<mapsto> a))"
proof -
  have "takeWhile is_digit (a @ rest) = a"
    using takeWhile_all_then[OF assms(1,3)] by simp
  moreover have "1 \<le> length a" using assms(2) by (cases a) simp_all
  ultimately show ?thesis by (simp add: last_group_caps del: rx_match.simps)
qed

lemma time_group_match:
  assumes "list_all word_colon_slash w" "w \<noteq> []" "is_space sp" "plus_minus sg"
    "list_all is_digit z" "length z = 4"
  shows "rx_match (Grp i (Seq (Rep word_colon_slash 1 None)
            (Seq (Cls is_space) (Seq (Cls plus_minus) (Seq (Rep is_digit 4 (Some 4)) Eps)))))
          (w @ sp # sg # z @ s) g
         = [(w @ sp # sg # z, s, g(i \<mapsto> w @ sp # sg # z))]"
proof -
  let ?Y = "Seq (Cls is_space) (Seq (Cls plus_minus) (Seq (Rep is_digit 4 (Some 4)) Eps))"
  have no: "needs_outside word_colon_slash ?Y"
    by (rule needs_outside_Cls) (rule wcs_space)
  have "\<not> word_colon_slash sp" using assms(3) wcs_space by blast
  then have tw: "takeWhile word_colon_slash (w @ sp # sg # z @ s) = w"
    "dropWhile word_colon_slash (w @ sp # sg # z @ s) = sp # sg # z @ s"
    using assms(1) by (simp_all add: list_all_iff takeWhile_append dropWhile_append)
  have "4 \<le> length (takeWhile is_digit (z @ s))"
    using assms(5,6) by (simp add: list_all_iff takeWhile_append)
  then have digs: "rx_match (Rep is_digit 4 (Some 4)) (z @ s) g = [(z, s, g)]"
    using assms(6) by (simp add: Let_def min_def)
  have Y: "rx_match ?Y (sp # sg # z @ s) g = [(sp # sg # z, s, g)]"
    using assms(3,4) digs by (simp add: rx_match_Seq prepend_def del: rx_match.simps(4,5))
  have "1 \<le> length w" using assms(2) by (cases w) simp_all
  then have "rx_match (Seq (Rep word_colon_slash 1 None) ?Y) (w @ sp # sg # z @ s) g
             = [(w @ sp # sg # z, s, g)]"
    unfolding seq_run[OF no] tw using Y by (simp add: prepend_def del: rx_match.simps)
  then show ?thesis by (simp del: rx_match.simps(4,5))
qed

lemma fwd_time_group:
  assumes "list_all word_colon_slash w" "w \<noteq> []" "is_space sp" "plus_minus sg"
    "list_all is_digit z" "length z = 4"
    and "caps_hd (rx_match r s (g(i \<mapsto> w @ sp # sg # z))) = Some g'"
  shows "caps_hd (rx_match (Seq (Grp i (Seq (Rep word_colon_slash 1 None)
            (Seq (Cls is_space) (Seq (Cls plus_minus) (Seq (Rep is_digit 4 (Some 4)) Eps))))) r)
          (w @ sp # sg # z @ s) g) = Some g'"
  apply (subst rx_match_Seq)
  apply (subst time_group_match[OF assms(1-6)])
  using assms(7) apply (simp del: rx_match.simps)
  done


lemmas fwd_token_space = fwd_tok_lit[where P = non_space, OF ns_space]
lemmas fwd_digits_space = fwd_tok_lit[where P = is_digit, OF dg_space]
lemmas fwd_quoted = fwd_tok_lit[where P = non_quote, OF nq_quote]
lemmas fwd_token_quote = fwd_tok_quote[where P = non_space, OF ns_quote ns_space]

lemma pattern_accepts:
  assumes "list_all non_space g1" "g1 \<noteq> []" "list_all non_space g2" "g2 \<noteq> []"
    "list_all non_space g3" "g3 \<noteq> []"
    "list_all word_colon_slash w" "w \<noteq> []" "is_space sp" "plus_minus sg"
    "list_all is_digit z" "length z = 4"
    "list_all non_space g5" "g5 \<noteq> []" "list_all non_space g6" "g6 \<noteq> []"
    "list_all non_space g7" "g7 \<noteq> []"
    "list_all is_digit g8" "length g8 = 3" "list_all is_digit g9" "g9 \<noteq> []"
    "list_all non_quote g10" "list_all non_quote g11"
    "list_all is_digit g12" "g12 \<noteq> []" "rest = [] \<or> \<not> is_digit (hd rest)"
  shows "caps_hd (rx_match pattern
           (g1 @ CHR '' '' # g2 @ CHR '' '' # g3 @ CHR '' '' # CHR ''['' # w @ sp # sg # z @
            CHR '']'' # CHR '' '' # CHR 0x22 # g5 @ CHR '' '' # g6 @ CHR '' '' # g7 @
            CHR 0x22 # CHR '' '' # g8 @ CHR '' '' # g9 @ CHR '' '' #
            CHR 0x22 # g10 @ CHR 0x22 # CHR '' '' # CHR 0x22 # g11 @ CHR 0x22 # CHR '' '' #
            g12 @ rest) g0)
         = Some (g0(1 \<mapsto> g1, 2 \<mapsto> g2, 3 \<mapsto> g3, 4 \<mapsto> w @ sp # sg # z, 5 \<mapsto> g5, 6 \<mapsto> g6,
                    7 \<mapsto> g7, 8 \<mapsto> g8, 9 \<mapsto> g9, 10 \<mapsto> g10, 11 \<mapsto> g11, 12 \<mapsto> g12))"
  unfolding pattern_def seq_def foldr.simps o_apply id_apply
  by (intro fwd_token_space fwd_lit fwd_time_group fwd_token_quote fwd_fixed[where P = is_digit]
        fwd_digits_space fwd_quoted fwd_last)
     (use assms in \<open>simp_all add: Suc_le_eq\<close>)

section \<open>The generator\<close>

subsection \<open>One entry\<close>

lemma weighted_choice_returns:
  assumes "choices_dict \<noteq> []" "0 < last (accumulate 0 (map snd choices_dict))"
  shows "\<exists>k. weighted_choice choices_dict u = Inr k"
  using assms by (simp add: weighted_choice_def Let_def)

lemma methods_total: "0 < last (accumulate 0 (map snd methods))" by (simp add: methods_def)
lemma endpoints_total: "0 < last (accumulate 0 (map snd endpoints))" by (simp add: endpoints_def)
lemma status_codes_total: "0 < last (accumulate 0 (map snd status_codes))" by (simp add: status_codes_def)
lemma user_agents_total: "0 < last (accumulate 0 (map snd user_agents))" by (simp add: user_agents_def)

lemma choose_method: "\<exists>k. weighted_choice methods u = Inr k"
  by (rule weighted_choice_returns[OF _ methods_total]) (simp add: methods_def)
lemma choose_endpoint: "\<exists>k. weighted_choice endpoints u = Inr k"
  by (rule weighted_choice_returns[OF _ endpoints_total]) (simp add: endpoints_def)
lemma choose_status: "\<exists>k. weighted_choice status_codes u = Inr k"
  by (rule weighted_choice_returns[OF _ status_codes_total]) (simp add: status_codes_def)
lemma choose_user_agent: "\<exists>k. weighted_choice user_agents u = Inr k"
  by (rule weighted_choice_returns[OF _ user_agents_total]) (simp add: user_agents_def)

lemma entry_shape:
  "\<exists>pre post. \<forall>timestamp.
     generate_log_entry timestamp d = Inr (pre @ ''['' @ strftime timestamp @ '' +0000] '' @ post)"
proof -
  obtain m e s a where c: "weighted_choice methods (u_method d) = Inr m"
    "weighted_choice endpoints (u_endpoint d) = Inr e"
    "weighted_choice status_codes (u_status d) = Inr s"
    "weighted_choice user_agents (u_user_agent d) = Inr a"
    using choose_method choose_endpoint choose_status choose_user_agent by metis
  show ?thesis
    unfolding generate_log_entry_def c and_then_def Let_def sum.case
    by (intro exI[of _ "generate_ip d @ '' - - ''"] exI allI) simp
qed

lemma strftime_naive: "strftime (timestamp\<lparr>utcoffset := off\<rparr>) = strftime timestamp"
  by (simp add: strftime_def)

lemma entry_returns: "\<exists>line. generate_log_entry timestamp d = Inr line"
  using entry_shape[of d] by blast

text \<open>
  Claim C10. Every line of the synthesizer carries the text \<^verbatim>\<open>+0000\<close> after the
  time, whatever the timestamp is: the line is a text before, the timestamp's own
  wall-clock fields as \<^verbatim>\<open>strftime\<close> writes them, the constant \<^verbatim>\<open> +0000] \<close>, and a text
  after, where neither text depends on the timestamp, and an offset on the timestamp would
  change nothing (no conversion is applied); the timestamps that \<^verbatim>\<open>generate_logs\<close>
  derives from the clock are naive.
\<close>

theorem offset_text_is_constant:
  "(\<exists>pre post. \<forall>timestamp off.
      generate_log_entry (timestamp\<lparr>utcoffset := off\<rparr>) d
        = Inr (pre @ ''['' @ strftime timestamp @ '' +0000] '' @ post)) \<and>
   utcoffset (datetime_of t) = None"
proof -
  obtain pre post where "\<forall>timestamp.
     generate_log_entry timestamp d = Inr (pre @ ''['' @ strftime timestamp @ '' +0000] '' @ post)"
    using entry_shape by blast
  then have "\<forall>timestamp off. generate_log_entry (timestamp\<lparr>utcoffset := off\<rparr>) d
        = Inr (pre @ ''['' @ strftime timestamp @ '' +0000] '' @ post)"
    by (simp add: strftime_naive)
  then show ?thesis by (auto simp: datetime_of_def Let_def)
qed

lemma unlucky_bytes: "generate_bytes_sent unlucky_draws = - 1"
  by (simp add: generate_bytes_sent_def unlucky_draws_def int_of_float_def)

lemma unlucky_entry: "generate_log_entry november_morning unlucky_draws = Inr (unlucky_line @ [CHR 0x0A])"
  by code_simp

lemma strip_unlucky: "strip (unlucky_line @ [CHR 0x0A]) = unlucky_line"
  by code_simp

lemma unlucky_unmatched: "re_match pattern unlucky_line = None"
  by code_simp

text \<open>
  Claim C2 (a defect of the code). With a draw in the band of small responses and a
  sample of \<^verbatim>\<open>np.random.normal(500, 100)\<close> of -1.5, \<^verbatim>\<open>generate_bytes_sent\<close> is -1, the
  entry carries \<^verbatim>\<open>-1\<close> as its size, and the parser returns \<^verbatim>\<open>None\<close> for it: loading a
  file of this one line gives no record.
\<close>

theorem negative_size_is_not_parsed:
  "generate_bytes_sent unlucky_draws = - 1 \<and>
   generate_log_entry november_morning unlucky_draws = Inr (unlucky_line @ [CHR 0x0A]) \<and>
   parse_log_line other_ua (strip (unlucky_line @ [CHR 0x0A])) = Inr None \<and>
   load_log_data other_ua [unlucky_line @ [CHR 0x0A]] = Inr []"
  by (simp add: unlucky_bytes unlucky_entry strip_unlucky parse_unmatched[OF unlucky_unmatched]
        load_log_data_def)

subsection \<open>The number of lines\<close>

lemma write_entries_length:
  "\<exists>entries. write_entries e i timestamps = Inr entries \<and> length entries = length timestamps"
proof (induction timestamps arbitrary: i)
  case Nil
  then show ?case by simp
next
  case (Cons t ts)
  obtain line where l: "generate_log_entry (datetime_of t) (entry_draws e i) = Inr line"
    using entry_returns by blast
  obtain entries where "write_entries e (Suc i) ts = Inr entries" "length entries = length ts"
    using Cons.IH by blast
  then show ?case by (simp add: l and_then_def)
qed

lemma sample_loop_length:
  "k \<le> length pool \<Longrightarrow> length (sample_loop rb i k pool) = k"
proof (induction k arbitrary: i pool)
  case 0
  then show ?case by simp
next
  case (Suc k)
  then have "pool \<noteq> []" by auto
  moreover have "k \<le> length (butlast (pool[rb i mod length pool := last pool]))"
    using Suc.prems by simp
  ultimately show ?case using Suc.IH by (simp add: Let_def)
qed

lemma generate_logs_length:
  assumes "0 \<le> num_lines"
  shows "\<exists>entries. generate_logs e num_lines = Inr (entries, num_lines) \<and>
           length entries = min (nat num_lines) (length (shaped_timestamps e))"
proof (cases "int (length (shaped_timestamps e)) > num_lines")
  case True
  let ?ts = "sort (shaped_timestamps e)"
  have s: "random_sample (randbelow e) ?ts num_lines = Inr (sample_loop (randbelow e) 0 (nat num_lines) ?ts)"
    using True assms by (simp add: random_sample_def)
  have len: "length (sample_loop (randbelow e) 0 (nat num_lines) ?ts) = nat num_lines"
    using True assms by (intro sample_loop_length) simp
  obtain entries where "write_entries e 0 (sort (sample_loop (randbelow e) 0 (nat num_lines) ?ts)) = Inr entries"
    "length entries = length (sort (sample_loop (randbelow e) 0 (nat num_lines) ?ts))"
    using write_entries_length by blast
  then show ?thesis using True s len by (simp add: generate_logs_def and_then_def Let_def)
next
  case False
  obtain entries where "write_entries e 0 (sort (sort (shaped_timestamps e))) = Inr entries"
    "length entries = length (sort (sort (shaped_timestamps e)))"
    using write_entries_length by blast
  then show ?thesis using False assms by (auto simp: generate_logs_def and_then_def Let_def min_def)
qed

lemma minutes_loop_bound:
  "(\<forall>i. poisson5 e i \<le> B) \<Longrightarrow> (\<forall>i. poisson1 e i \<le> B) \<Longrightarrow>
   length (minutes_loop e end_time i current_time timestamps)
     \<le> length timestamps + B * nat ((end_time - current_time + 59999999) div 60000000)"
proof (induction e end_time i current_time timestamps rule: minutes_loop.induct)
  case (1 e end_time i current_time timestamps)
  show ?case
  proof (cases "current_time < end_time")
    case False
    then show ?thesis by (simp add: minutes_loop.simps)
  next
    case True
    define n where "n = (if 8 \<le> hour_of current_time \<and> hour_of current_time \<le> 18
                         then poisson5 e i else poisson1 e i)"
    define ts' where "ts' = timestamps @ map (\<lambda>j. current_time + random_seconds e i j) [0..<n]"
    define K where "K = (end_time - current_time + 59999999) div 60000000"
    have n: "n \<le> B" using "1.prems" by (simp add: n_def)
    have step: "minutes_loop e end_time i current_time timestamps =
                minutes_loop e end_time (Suc i) (current_time + 60000000) ts'"
      using True by (subst minutes_loop.simps) (simp add: n_def ts'_def Let_def)
    have "length (minutes_loop e end_time (Suc i) (current_time + 60000000) ts')
          \<le> length ts' + B * nat ((end_time - (current_time + 60000000) + 59999999) div 60000000)"
      unfolding ts'_def n_def by (rule "1.IH"[OF True refl refl refl "1.prems"])
    moreover have "(end_time - (current_time + 60000000) + 59999999) div 60000000 = K - 1"
    proof -
      have "(x - 60000000) div 60000000 = x div 60000000 - 1" for x :: int
        using div_add_self2[of "60000000::int" "x - 60000000"] by simp
      from this[of "end_time - current_time + 59999999"] show ?thesis
        by (simp add: K_def algebra_simps)
    qed
    moreover have K1: "1 \<le> K"
    proof -
      have "(60000000::int) \<le> end_time - current_time + 59999999" using True by simp
      then have "0 < (end_time - current_time + 59999999) div 60000000"
        by (simp add: pos_imp_zdiv_pos_iff)
      then show ?thesis by (simp add: K_def)
    qed
    moreover have "B * nat K = B * nat (K - 1) + B"
    proof -
      have "nat K = Suc (nat (K - 1))" using K1 by simp
      then show ?thesis by simp
    qed
    moreover have "length ts' = length timestamps + n" by (simp add: ts'_def)
    ultimately show ?thesis using n unfolding step K_def[symmetric] by simp
  qed
qed

lemma shaped_timestamps_bound:
  assumes "\<forall>i. poisson5 e i \<le> B" "\<forall>i. poisson1 e i \<le> B"
  shows "length (shaped_timestamps e) \<le> B * 10080"
  using minutes_loop_bound[OF assms, of "now e" 0 "now e - 7 * 86400000000" "[]"]
  by (simp add: shaped_timestamps_def Let_def)

text \<open>
  Claim C7 (a defect of the code). With five entries in every minute of business hours
  and one in every other minute, a request for 100000 lines writes at most 50400 lines,
  and the final message reports 100000 as generated.
\<close>

theorem fewer_lines_than_requested:
  "case generate_logs steady_env 100000 of
     Inl e \<Rightarrow> False
   | Inr (entries, reported) \<Rightarrow> length entries \<le> 50400 \<and> reported = 100000"
proof -
  obtain entries where g: "generate_logs steady_env 100000 = Inr (entries, 100000)"
    and l: "length entries = min (nat 100000) (length (shaped_timestamps steady_env))"
    using generate_logs_length[of 100000 steady_env] by auto
  have "length (shaped_timestamps steady_env) \<le> 5 * 10080"
    by (rule shaped_timestamps_bound) (simp_all add: steady_env_def)
  then show ?thesis using g l by simp
qed

section \<open>The parser on the documented line\<close>

text \<open>
  Claim C5. Parsing the line
  \<^verbatim>\<open>192.168.1.1 - - [10/Oct/2023:13:55:36 +0000] "GET /api/users HTTP/1.1" 200 1024 "-" "Mozilla/5.0 (Windows NT 10.0; Win64; x64)" 45\<close>
  succeeds, whatever the user-agent classifier is, and gives ip 192.168.1.1, method GET,
  path /api/users, the integers status 200, bytes sent 1024 and response time 45,
  referrer \<^verbatim>\<open>-\<close>, and the time 2023-10-10 13:55:36 at offset zero from UTC.
\<close>

theorem parse_documented_line:
  \<open>parse_log_line ua_parse
     ''192.168.1.1 - - [10/Oct/2023:13:55:36 +0000] "GET /api/users HTTP/1.1" 200 1024 "-" "Mozilla/5.0 (Windows NT 10.0; Win64; x64)" 45''
   = Inr (Some
       \<lparr>ip = ''192.168.1.1'', remote_log_name = ''-'', user_id = ''-'',
        datetime = \<lparr>year = 2023, month = 10, day = 10, hour = 13, minute = 55,
                     second = 36, microsecond = 0, utcoffset = Some 0\<rparr>,
        method = ''GET'', api = ''/api/users'', protocol = ''HTTP/1.1'',
        status = 200, bytes_sent = 1024, referrer = ''-'',
        ua_string = ''Mozilla/5.0 (Windows NT 10.0; Win64; x64)'',
        browser = browser_family (ua_parse ''Mozilla/5.0 (Windows NT 10.0; Win64; x64)''),
        os = os_family (ua_parse ''Mozilla/5.0 (Windows NT 10.0; Win64; x64)''),
        device = device_family (ua_parse ''Mozilla/5.0 (Windows NT 10.0; Win64; x64)''),
        response_time = 45\<rparr>)\<close>
  by code_simp

end
